theory Spec2Isabelle
  imports Main "HOL-Library.Word" "HOL-Library.Multiset"
begin

unbundle bit_operations_syntax

section \<open>Dialect table and dialect selection (smb\_common.c)\<close>

text \<open>
  \<^verbatim>\<open>struct smb_protocol { int index; char *name; char *prot; __u16 prot_id; }\<close>.
  The advertised name carries its leading marker byte \<^verbatim>\<open>\2\<close>, as in the table.
\<close>

record smb_protocol =
  index :: int
  name :: string
  prot :: string
  prot_id :: "16 word"

text \<open>
  Modelled from the spec: the header smb\_common.h, which declares the protocol-family
  indices and the wire identifiers, is not part of the sources at hand. The spec says that
  the indices increase strictly with protocol modernity (SMB1 oldest, SMB 3.1.1 newest)
  and names the identifiers 0x0202, 0x0210 and 0x0300; the remaining identifiers are the
  dialect revision numbers of the protocol, and the sentinel is the all-ones 16-bit value.
\<close>

definition SMB1_PROT :: int where "SMB1_PROT = 0"
definition SMB2_PROT :: int where "SMB2_PROT = 1"
definition SMB21_PROT :: int where "SMB21_PROT = 2"
definition SMB30_PROT :: int where "SMB30_PROT = 3"
definition SMB302_PROT :: int where "SMB302_PROT = 4"
definition SMB311_PROT :: int where "SMB311_PROT = 5"

definition SMB10_PROT_ID :: "16 word" where "SMB10_PROT_ID = 0x00"
definition SMB20_PROT_ID :: "16 word" where "SMB20_PROT_ID = 0x0202"
definition SMB21_PROT_ID :: "16 word" where "SMB21_PROT_ID = 0x0210"
definition SMB30_PROT_ID :: "16 word" where "SMB30_PROT_ID = 0x0300"
definition SMB302_PROT_ID :: "16 word" where "SMB302_PROT_ID = 0x0302"
definition SMB311_PROT_ID :: "16 word" where "SMB311_PROT_ID = 0x0311"
definition BAD_PROT_ID :: "16 word" where "BAD_PROT_ID = 0xFFFF"

lemmas prot_defs =
  SMB1_PROT_def SMB2_PROT_def SMB21_PROT_def SMB30_PROT_def SMB302_PROT_def SMB311_PROT_def
  SMB10_PROT_ID_def SMB20_PROT_ID_def SMB21_PROT_ID_def SMB30_PROT_ID_def
  SMB302_PROT_ID_def SMB311_PROT_ID_def BAD_PROT_ID_def

text \<open>The NUL byte that terminates a C string, and the marker byte of a dialect name.\<close>

definition NUL :: char where "NUL = CHR 0x00"
definition STX :: char where "STX = CHR 0x02"

text \<open>
  The table \<^verbatim>\<open>smb_protos[]\<close>, in the array order of the source. The flag is
  \<^verbatim>\<open>CONFIG_CIFS_INSECURE_SERVER\<close>: the SMB1 entry exists only when it is set.
\<close>

definition smb_protos :: "bool \<Rightarrow> smb_protocol list" where
  "smb_protos insecure_server =
     (if insecure_server
      then [\<lparr>index = SMB1_PROT, name = STX # ''NT LM 0.12'', prot = ''NT1'',
              prot_id = SMB10_PROT_ID\<rparr>]
      else []) @
     [\<lparr>index = SMB311_PROT, name = STX # ''SMB 3.1.1'', prot = ''SMB3_11'',
        prot_id = SMB311_PROT_ID\<rparr>,
      \<lparr>index = SMB2_PROT, name = STX # ''SMB 2.002'', prot = ''SMB2_02'',
        prot_id = SMB20_PROT_ID\<rparr>,
      \<lparr>index = SMB21_PROT, name = STX # ''SMB 2.1'', prot = ''SMB2_10'',
        prot_id = SMB21_PROT_ID\<rparr>,
      \<lparr>index = SMB30_PROT, name = STX # ''SMB 3.0'', prot = ''SMB3_00'',
        prot_id = SMB30_PROT_ID\<rparr>,
      \<lparr>index = SMB302_PROT, name = STX # ''SMB 3.02'', prot = ''SMB3_02'',
        prot_id = SMB302_PROT_ID\<rparr>]"

text \<open>\<^verbatim>\<open>server_conf\<close>: the configured inclusive range of protocol-family indices.\<close>

record server_config =
  min_protocol :: int
  max_protocol :: int

definition supported_protocol :: "server_config \<Rightarrow> int \<Rightarrow> bool" where
  "supported_protocol server_conf idx =
     (min_protocol server_conf \<le> idx \<and> idx \<le> max_protocol server_conf)"

subsection \<open>Matching by numeric identifier\<close>

text \<open>
  The inner \<^verbatim>\<open>while (--count >= 0)\<close> loop of \<^verbatim>\<open>cifsd_lookup_dialect_by_id\<close>
  for one table entry: it walks the client's array from its last element down and
  reports whether the function returns at this entry. The identifiers are taken in
  host order (\<^verbatim>\<open>le16_to_cpu\<close> already applied); the count must not exceed the
  length of the array.
\<close>

fun id_scan :: "server_config \<Rightarrow> smb_protocol \<Rightarrow> 16 word list \<Rightarrow> nat \<Rightarrow> bool" where
  "id_scan server_conf p cli_dialects 0 = False"
| "id_scan server_conf p cli_dialects (Suc cnt) =
     (if cli_dialects ! cnt \<noteq> prot_id p then id_scan server_conf p cli_dialects cnt
      else if supported_protocol server_conf (index p) then True
      else id_scan server_conf p cli_dialects cnt)"

text \<open>
  The outer \<^verbatim>\<open>for (i = ARRAY_SIZE(smb_protos) - 1; i >= 0; i--)\<close> loop; the
  argument is \<open>i + 1\<close>.
\<close>

fun id_loop :: "smb_protocol list \<Rightarrow> server_config \<Rightarrow> 16 word list \<Rightarrow> nat \<Rightarrow> nat \<Rightarrow> int" where
  "id_loop protos server_conf cli_dialects dialects_count 0 = uint BAD_PROT_ID"
| "id_loop protos server_conf cli_dialects dialects_count (Suc i) =
     (if id_scan server_conf (protos ! i) cli_dialects dialects_count
      then uint (prot_id (protos ! i))
      else id_loop protos server_conf cli_dialects dialects_count i)"

definition cifsd_lookup_dialect_by_id ::
  "smb_protocol list \<Rightarrow> server_config \<Rightarrow> 16 word list \<Rightarrow> nat \<Rightarrow> int" where
  "cifsd_lookup_dialect_by_id protos server_conf cli_dialects dialects_count =
     id_loop protos server_conf cli_dialects dialects_count (length protos)"

subsection \<open>Matching by name\<close>

text \<open>
  The client's dialect strings lie in one buffer, each terminated by NUL. Pointers into
  the buffer are offsets; \<^verbatim>\<open>cli_dialects\<close> itself is offset 0. The loop of
  \<^verbatim>\<open>lower_dialect\<close> steps \<open>tail\<close> down towards \<open>head\<close> and stops behind the
  first NUL it meets.
\<close>

function lower_dialect_loop :: "string \<Rightarrow> nat \<Rightarrow> nat \<Rightarrow> nat" where
  "lower_dialect_loop buf head tail =
     (if tail > head
      then (if buf ! (tail - 1) = NUL then (tail - 1) + 1
            else lower_dialect_loop buf head (tail - 1))
      else head)"
  by pat_completeness auto
termination
  by (relation "measure (\<lambda>(buf, head, tail). tail)") auto

declare lower_dialect_loop.simps [simp del]

definition lower_dialect :: "string \<Rightarrow> nat \<Rightarrow> nat \<Rightarrow> nat option" where
  "lower_dialect buf head tail =
     (if tail = head then None else Some (lower_dialect_loop buf head (tail - 1)))"

text \<open>
  The C string that starts at offset \<open>p\<close>: the bytes up to the next NUL. (A string
  that is not terminated inside the buffer is read up to the buffer's end.)
\<close>

definition cstring_at :: "string \<Rightarrow> nat \<Rightarrow> string" where
  "cstring_at buf p = takeWhile (\<lambda>c. c \<noteq> NUL) (drop p buf)"

lemma lower_dialect_loop_le: "head \<le> tail \<Longrightarrow> lower_dialect_loop buf head tail \<le> tail"
proof (induction buf head tail rule: lower_dialect_loop.induct)
  case (1 buf head tail)
  show ?case
  proof (cases "tail > head")
    case True
    show ?thesis
    proof (cases "buf ! (tail - 1) = NUL")
      case True
      with \<open>tail > head\<close> show ?thesis by (subst lower_dialect_loop.simps) simp
    next
      case False
      with \<open>tail > head\<close> have "lower_dialect_loop buf head (tail - 1) \<le> tail - 1"
        by (intro "1.IH") auto
      with False \<open>tail > head\<close> show ?thesis by (subst lower_dialect_loop.simps) simp
    qed
  next
    case False
    then show ?thesis using 1 by (subst lower_dialect_loop.simps) simp
  qed
qed

lemma lower_dialect_less: "lower_dialect buf 0 tail = Some q \<Longrightarrow> q < tail"
  using lower_dialect_loop_le [of 0 "tail - 1" buf]
  by (auto simp: lower_dialect_def split: if_splits)

text \<open>
  The \<^verbatim>\<open>while (prot)\<close> loop of \<^verbatim>\<open>cifsd_lookup_dialect_by_name\<close> for one
  table entry: \<open>None\<close> is the NULL pointer. It reports whether the function returns
  at this entry.
\<close>

function name_scan :: "server_config \<Rightarrow> smb_protocol \<Rightarrow> string \<Rightarrow> nat option \<Rightarrow> bool" where
  "name_scan server_conf p cli_dialects None = False"
| "name_scan server_conf p cli_dialects (Some pr) =
     (if cstring_at cli_dialects pr = name p \<and> supported_protocol server_conf (index p)
      then True
      else name_scan server_conf p cli_dialects (lower_dialect cli_dialects 0 pr))"
  by pat_completeness auto
termination
  by (relation "measure (\<lambda>(server_conf, p, cli_dialects, pr). case pr of None \<Rightarrow> 0 | Some q \<Rightarrow> Suc q)")
     (auto split: option.splits dest: lower_dialect_less)

text \<open>The outer loop over the table, from its last entry down; the argument is \<open>i + 1\<close>.\<close>

fun name_loop :: "smb_protocol list \<Rightarrow> server_config \<Rightarrow> string \<Rightarrow> nat \<Rightarrow> nat \<Rightarrow> int" where
  "name_loop protos server_conf cli_dialects bcount 0 = uint BAD_PROT_ID"
| "name_loop protos server_conf cli_dialects bcount (Suc i) =
     (if name_scan server_conf (protos ! i) cli_dialects (lower_dialect cli_dialects 0 (0 + bcount))
      then uint (prot_id (protos ! i))
      else name_loop protos server_conf cli_dialects bcount i)"

definition cifsd_lookup_dialect_by_name ::
  "smb_protocol list \<Rightarrow> server_config \<Rightarrow> string \<Rightarrow> nat \<Rightarrow> int" where
  "cifsd_lookup_dialect_by_name protos server_conf cli_dialects byte_count =
     name_loop protos server_conf cli_dialects byte_count (length protos)"

text \<open>
  The wire form of a list of dialect strings (the legacy negotiate payload): every string
  followed by its terminating NUL.
\<close>

definition dialects_array :: "string list \<Rightarrow> string" where
  "dialects_array ds = concat (map (\<lambda>d. d @ [NUL]) ds)"

subsection \<open>What the two scans compute\<close>

lemma id_scan_iff:
  "cnt \<le> length cli \<Longrightarrow>
   id_scan conf p cli cnt = (prot_id p \<in> set (take cnt cli) \<and> supported_protocol conf (index p))"
  by (induction cnt) (auto simp: take_Suc_conv_app_nth)

lemma id_loop_cong:
  "(\<And>i. i < n \<Longrightarrow> id_scan conf (protos ! i) cli1 c1 = id_scan conf (protos ! i) cli2 c2) \<Longrightarrow>
   id_loop protos conf cli1 c1 n = id_loop protos conf cli2 c2 n"
  by (induction n) auto

lemma lower_dialect_loop_stop:
  "k \<le> length d \<Longrightarrow> NUL \<notin> set d \<Longrightarrow> pre = [] \<or> last pre = NUL \<Longrightarrow>
   lower_dialect_loop (pre @ d @ rest) 0 (length pre + k) = length pre"
proof (induction k)
  case 0
  show ?case
  proof (cases "pre = []")
    case True then show ?thesis by (subst lower_dialect_loop.simps) simp
  next
    case False
    with 0 have "last pre = NUL" by simp
    with False have "(pre @ d @ rest) ! (length pre - 1) = NUL"
      by (simp add: nth_append last_conv_nth)
    with False show ?thesis by (subst lower_dialect_loop.simps) simp
  qed
next
  case (Suc k)
  then have "d ! k \<noteq> NUL" by (metis Suc_le_lessD nth_mem)
  with Suc show ?case
    by (subst lower_dialect_loop.simps) (simp add: nth_append)
qed

lemma dialects_array_snoc: "dialects_array (ds @ [d]) = dialects_array ds @ d @ [NUL]"
  by (simp add: dialects_array_def)

lemma dialects_array_last: "dialects_array ds = [] \<or> last (dialects_array ds) = NUL"
  by (induction ds rule: rev_induct) (simp_all add: dialects_array_def)

lemma lower_dialect_snoc:
  assumes "NUL \<notin> set d"
  shows "lower_dialect (dialects_array ds @ d @ NUL # rest) 0 (length (dialects_array (ds @ [d])))
     = Some (length (dialects_array ds))"
  using lower_dialect_loop_stop [OF le_refl assms dialects_array_last, of ds "NUL # rest"]
  by (simp add: lower_dialect_def dialects_array_snoc)

lemma cstring_at_entry:
  "NUL \<notin> set d \<Longrightarrow> cstring_at (pre @ d @ NUL # rest) (length pre) = d"
  by (auto simp: cstring_at_def takeWhile_tail)

lemma name_scan_iff:
  "\<forall>d \<in> set ds. NUL \<notin> set d \<Longrightarrow>
   name_scan conf p (dialects_array ds @ rest) (lower_dialect (dialects_array ds @ rest) 0 (length (dialects_array ds)))
     = (name p \<in> set ds \<and> supported_protocol conf (index p))"
proof (induction ds arbitrary: rest rule: rev_induct)
  case Nil
  then show ?case by (simp add: dialects_array_def lower_dialect_def)
next
  case (snoc d ds)
  then have d: "NUL \<notin> set d" by simp
  have IH: "name_scan conf p (dialects_array ds @ d @ NUL # rest)
        (lower_dialect (dialects_array ds @ d @ NUL # rest) 0 (length (dialects_array ds)))
     = (name p \<in> set ds \<and> supported_protocol conf (index p))"
    using snoc.IH [of "d @ NUL # rest"] snoc.prems by simp
  show ?case
    using IH lower_dialect_snoc [OF d, of ds rest] cstring_at_entry [OF d, of "dialects_array ds" rest]
    by (auto simp: dialects_array_snoc)
qed

lemma name_loop_cong:
  "(\<And>i. i < n \<Longrightarrow> name_scan conf (protos ! i) b1 (lower_dialect b1 0 (0 + c1))
       = name_scan conf (protos ! i) b2 (lower_dialect b2 0 (0 + c2))) \<Longrightarrow>
   name_loop protos conf b1 c1 n = name_loop protos conf b2 c2 n"
  by (induction n) auto


subsection \<open>Permutation of the client's offer\<close>

text \<open>
  Claim C7. The outcome of dialect selection does not change when the entries of the
  client's offer are permuted, for every table and every supported range: for the
  numeric matching the offer is the array of 16-bit identifiers, for the name matching
  it is the buffer made of the offered strings (none of which contains a NUL), each
  followed by its terminating NUL.
\<close>

theorem dialect_selection_permutation_invariant:
  assumes "mset cli1 = mset cli2"
    and "mset ds1 = mset ds2" and "\<forall>d \<in> set ds1. NUL \<notin> set d"
  shows "cifsd_lookup_dialect_by_id protos server_conf cli1 (length cli1) =
           cifsd_lookup_dialect_by_id protos server_conf cli2 (length cli2) \<and>
         cifsd_lookup_dialect_by_name protos server_conf
             (dialects_array ds1) (length (dialects_array ds1)) =
           cifsd_lookup_dialect_by_name protos server_conf
             (dialects_array ds2) (length (dialects_array ds2))"
proof
  have "set cli1 = set cli2" using assms(1) by (rule mset_eq_setD)
  then show "cifsd_lookup_dialect_by_id protos server_conf cli1 (length cli1) =
      cifsd_lookup_dialect_by_id protos server_conf cli2 (length cli2)"
    unfolding cifsd_lookup_dialect_by_id_def
    by (intro id_loop_cong) (simp add: id_scan_iff)
next
  have s: "set ds1 = set ds2" using assms(2) by (rule mset_eq_setD)
  with assms(3) have n2: "\<forall>d \<in> set ds2. NUL \<notin> set d" by simp
  show "cifsd_lookup_dialect_by_name protos server_conf
             (dialects_array ds1) (length (dialects_array ds1)) =
           cifsd_lookup_dialect_by_name protos server_conf
             (dialects_array ds2) (length (dialects_array ds2))"
    unfolding cifsd_lookup_dialect_by_name_def
    using name_scan_iff [OF assms(3), of server_conf _ "[]"]
      name_scan_iff [OF n2, of server_conf _ "[]"] s
    by (intro name_loop_cong) simp
qed

theorem dialect_selection_permutation_invariant_witness:
  "mset [0x0202, 0x0210, 0x0300 :: 16 word] = mset [0x0300, 0x0202, 0x0210] \<and>
   mset [STX # ''SMB 2.002'', STX # ''SMB 3.0''] = mset [STX # ''SMB 3.0'', STX # ''SMB 2.002''] \<and>
   NUL \<notin> set (STX # ''SMB 2.002'') \<and> NUL \<notin> set (STX # ''SMB 3.0'') \<and>
   cifsd_lookup_dialect_by_id (smb_protos False)
       \<lparr>min_protocol = SMB2_PROT, max_protocol = SMB302_PROT\<rparr> [0x0202, 0x0210, 0x0300]
       (length [0x0202, 0x0210, 0x0300 :: 16 word]) =
     cifsd_lookup_dialect_by_id (smb_protos False)
       \<lparr>min_protocol = SMB2_PROT, max_protocol = SMB302_PROT\<rparr> [0x0300, 0x0202, 0x0210]
       (length [0x0300, 0x0202, 0x0210 :: 16 word]) \<and>
   cifsd_lookup_dialect_by_name (smb_protos False)
       \<lparr>min_protocol = SMB2_PROT, max_protocol = SMB302_PROT\<rparr>
       (dialects_array [STX # ''SMB 2.002'', STX # ''SMB 3.0''])
       (length (dialects_array [STX # ''SMB 2.002'', STX # ''SMB 3.0''])) =
     cifsd_lookup_dialect_by_name (smb_protos False)
       \<lparr>min_protocol = SMB2_PROT, max_protocol = SMB302_PROT\<rparr>
       (dialects_array [STX # ''SMB 3.0'', STX # ''SMB 2.002''])
       (length (dialects_array [STX # ''SMB 3.0'', STX # ''SMB 2.002'']))"
proof -
  have a: "mset [0x0202, 0x0210, 0x0300 :: 16 word] = mset [0x0300, 0x0202, 0x0210]"
    by simp
  have b: "mset [STX # ''SMB 2.002'', STX # ''SMB 3.0''] =
      mset [STX # ''SMB 3.0'', STX # ''SMB 2.002'']"
    by simp
  have c: "\<forall>d \<in> set [STX # ''SMB 2.002'', STX # ''SMB 3.0'']. NUL \<notin> set d"
    by (simp add: NUL_def STX_def)
  have d: "NUL \<notin> set (STX # ''SMB 2.002'') \<and> NUL \<notin> set (STX # ''SMB 3.0'')"
    using c by simp
  from dialect_selection_permutation_invariant [OF a b c, of "smb_protos False"
      "\<lparr>min_protocol = SMB2_PROT, max_protocol = SMB302_PROT\<rparr>"] a b d
  show ?thesis by blast
qed

subsection \<open>The newest matching dialect\<close>

text \<open>
  The selection as the specification words it: among the table entries whose index lies
  in the supported range and which the offer matches, the one with the greatest
  protocol-family index (the newest); the sentinel when there is none. The predicate
  \<open>offered\<close> says whether the offer matches an entry.
\<close>

definition newest_in_range_match ::
  "smb_protocol list \<Rightarrow> server_config \<Rightarrow> (smb_protocol \<Rightarrow> bool) \<Rightarrow> int" where
  "newest_in_range_match protos server_conf offered =
     (case filter (\<lambda>p. supported_protocol server_conf (index p) \<and> offered p) protos of
        [] \<Rightarrow> uint BAD_PROT_ID
      | c # cs \<Rightarrow>
          uint (prot_id (fold (\<lambda>p best. if index best < index p then p else best) cs c)))"

text \<open>
  On a table whose protocol-family indices increase strictly along the array, both
  matching functions return exactly this newest entry. The table of the source is not
  such a table.
\<close>

lemma id_loop_last_match:
  assumes "n \<le> length protos"
  shows "id_loop protos server_conf cli (length cli) n =
     (case filter (\<lambda>p. supported_protocol server_conf (index p) \<and> prot_id p \<in> set cli)
             (take n protos) of
        [] \<Rightarrow> uint BAD_PROT_ID
      | c # cs \<Rightarrow> uint (prot_id (last (c # cs))))"
  using assms
proof (induction n)
  case 0
  then show ?case by simp
next
  case (Suc n)
  then have t: "take (Suc n) protos = take n protos @ [protos ! n]"
    by (simp add: take_Suc_conv_app_nth)
  from Suc show ?case
    by (auto simp: t id_scan_iff split: list.splits)
qed

lemma name_loop_last_match:
  assumes "n \<le> length protos" "\<forall>d \<in> set ds. NUL \<notin> set d"
  shows "name_loop protos server_conf (dialects_array ds) (length (dialects_array ds)) n =
     (case filter (\<lambda>p. supported_protocol server_conf (index p) \<and> name p \<in> set ds)
             (take n protos) of
        [] \<Rightarrow> uint BAD_PROT_ID
      | c # cs \<Rightarrow> uint (prot_id (last (c # cs))))"
  using assms(1)
proof (induction n)
  case 0
  then show ?case by simp
next
  case (Suc n)
  then have t: "take (Suc n) protos = take n protos @ [protos ! n]"
    by (simp add: take_Suc_conv_app_nth)
  from Suc name_scan_iff [OF assms(2), of server_conf _ "[]"] show ?case
    by (auto simp: t split: list.splits)
qed

lemma fold_newest_ordered:
  "sorted_wrt (\<lambda>p q. index p < index q) (c # cs) \<Longrightarrow>
   fold (\<lambda>p best. if index best < index p then p else best) cs c = last (c # cs)"
  by (induction cs arbitrary: c) auto

lemma newest_on_ordered_table:
  assumes "sorted_wrt (\<lambda>p q. index p < index q) protos"
  shows "newest_in_range_match protos server_conf offered =
     (case filter (\<lambda>p. supported_protocol server_conf (index p) \<and> offered p) protos of
        [] \<Rightarrow> uint BAD_PROT_ID
      | c # cs \<Rightarrow> uint (prot_id (last (c # cs))))"
proof -
  have "sorted_wrt (\<lambda>p q. index p < index q)
      (filter (\<lambda>p. supported_protocol server_conf (index p) \<and> offered p) protos)"
    using assms by (rule sorted_wrt_filter)
  then show ?thesis
    by (auto simp: newest_in_range_match_def fold_newest_ordered split: list.splits
        simp del: sorted_wrt.simps)
qed

lemma lookup_on_ordered_table:
  assumes "sorted_wrt (\<lambda>p q. index p < index q) protos"
  shows "cifsd_lookup_dialect_by_id protos server_conf cli (length cli) =
           newest_in_range_match protos server_conf (\<lambda>p. prot_id p \<in> set cli)"
    and "\<forall>d \<in> set ds. NUL \<notin> set d \<Longrightarrow>
         cifsd_lookup_dialect_by_name protos server_conf
             (dialects_array ds) (length (dialects_array ds)) =
           newest_in_range_match protos server_conf (\<lambda>p. name p \<in> set ds)"
  by (simp_all add: cifsd_lookup_dialect_by_id_def cifsd_lookup_dialect_by_name_def
      id_loop_last_match name_loop_last_match newest_on_ordered_table [OF assms])

lemma smb_protos_not_ordered:
  "\<not> sorted_wrt (\<lambda>p q. index p < index q) (smb_protos insecure_server)"
  by (simp add: smb_protos_def prot_defs)


text \<open>
  Claim C1: for every offer and every supported range, selection returns the wire
  identifier of the newest table entry that lies in the range and that the offer
  matches, and the sentinel when there is none; the table is taken to be in
  oldest-to-newest order. The code departs from it, because its table is not in that
  order: the SMB 3.1.1 entry stands before the SMB 2.002 entry. A client that offers
  SMB 3.02 and SMB 3.1.1 to a server supporting the whole range SMB 2.002 .. SMB 3.1.1
  is given SMB 3.02 (0x0302) by both matching functions, while the newest in-range entry
  that the offer matches is SMB 3.1.1 (0x0311).
\<close>

theorem dialect_selection_misses_newest:
  "cifsd_lookup_dialect_by_id (smb_protos False)
       \<lparr>min_protocol = SMB2_PROT, max_protocol = SMB311_PROT\<rparr> [0x0302, 0x0311] 2 = 0x0302 \<and>
   newest_in_range_match (smb_protos False)
       \<lparr>min_protocol = SMB2_PROT, max_protocol = SMB311_PROT\<rparr>
       (\<lambda>p. prot_id p \<in> set [0x0302, 0x0311]) = 0x0311 \<and>
   cifsd_lookup_dialect_by_name (smb_protos False)
       \<lparr>min_protocol = SMB2_PROT, max_protocol = SMB311_PROT\<rparr>
       (dialects_array [STX # ''SMB 3.02'', STX # ''SMB 3.1.1''])
       (length (dialects_array [STX # ''SMB 3.02'', STX # ''SMB 3.1.1''])) = 0x0302 \<and>
   newest_in_range_match (smb_protos False)
       \<lparr>min_protocol = SMB2_PROT, max_protocol = SMB311_PROT\<rparr>
       (\<lambda>p. name p \<in> set [STX # ''SMB 3.02'', STX # ''SMB 3.1.1'']) = 0x0311"
  by code_simp

section \<open>Negotiation and the family upgrade (smb\_common.c)\<close>

text \<open>
  Modelled from the spec: the headers that declare the two 4-byte family markers, the two
  negotiate command codes, the status code and the errno values are not part of the
  sources at hand. The markers are the bytes FE 'S' 'M' 'B' (modern) and FF 'S' 'M' 'B'
  (legacy) read as a little-endian 32-bit value; only their being different matters.
\<close>

definition SMB2_PROTO_NUMBER :: "32 word" where "SMB2_PROTO_NUMBER = 0x424d53fe"
definition SMB1_PROTO_NUMBER :: "32 word" where "SMB1_PROTO_NUMBER = 0x424d53ff"
definition SMB2_NEGOTIATE_HE :: nat where "SMB2_NEGOTIATE_HE = 0x0000"
definition SMB_COM_NEGOTIATE :: nat where "SMB_COM_NEGOTIATE = 0x72"
definition NT_STATUS_INVALID_LOGON_TYPE :: "32 word" where
  "NT_STATUS_INVALID_LOGON_TYPE = 0xC000015B"
definition EINVAL :: int where "EINVAL = 22"
definition ENOTSUPP :: int where "ENOTSUPP = 524"

text \<open>
  The request buffer as far as negotiation reads it. Both header layouts keep the family
  marker in the same four bytes, so it is one field; the dialect payload is given in
  both readings (\<^verbatim>\<open>smb2_negotiate_req\<close>: \<open>Dialects\<close>, \<open>DialectCount\<close>;
  \<^verbatim>\<open>NEGOTIATE_REQ\<close>: \<open>DialectsArray\<close>, \<open>ByteCount\<close>), of which the code reads the
  one that the marker selects.
\<close>

record request_buf =
  ProtocolId :: "32 word"
  Dialects :: "16 word list"
  DialectCount :: nat
  DialectsArray :: string
  ByteCount :: nat

definition cifsd_negotiate_smb_dialect :: "bool \<Rightarrow> server_config \<Rightarrow> request_buf \<Rightarrow> int" where
  "cifsd_negotiate_smb_dialect insecure_server server_conf buf =
     (if ProtocolId buf = SMB2_PROTO_NUMBER
      then cifsd_lookup_dialect_by_id (smb_protos insecure_server) server_conf
             (Dialects buf) (DialectCount buf)
      else if ProtocolId buf = SMB1_PROTO_NUMBER
      then cifsd_lookup_dialect_by_name (smb_protos insecure_server) server_conf
             (DialectsArray buf) (ByteCount buf)
      else uint BAD_PROT_ID)"

text \<open>
  The functions of the two protocol families that this file calls but does not define
  are kept as events: the work item records which of them ran, in order. What they
  return is given by the environment.
\<close>

datatype call =
  Init_smb2_0_server | Init_smb2_1_server | Init_smb2_neg_rsp
  | Smb2_handle_negotiate | Smb1_handle_negotiate

record externals =
  init_smb2_0_server_ret :: int
  smb2_handle_negotiate_ret :: int
  smb1_handle_negotiate_ret :: int

record cifsd_tcp_conn =
  dialect :: int
  need_neg :: bool

record cifsd_work =
  conn :: cifsd_tcp_conn
  request :: request_buf
  rsp_CifsError :: "32 word"
  calls :: "call list"

definition ran :: "call \<Rightarrow> cifsd_work \<Rightarrow> cifsd_work" where
  "ran c work = work\<lparr>calls := calls work @ [c]\<rparr>"

definition cifsd_init_smb2_server_common :: "externals \<Rightarrow> cifsd_work \<Rightarrow> cifsd_work" where
  "cifsd_init_smb2_server_common ext work =
     (if init_smb2_0_server_ret ext = - ENOTSUPP
      then ran Init_smb2_1_server (ran Init_smb2_0_server work)
      else ran Init_smb2_0_server work)"

text \<open>\<^verbatim>\<open>__smb2_negotiate\<close>: is the selected dialect one of the modern family?\<close>

definition smb2_negotiate :: "cifsd_tcp_conn \<Rightarrow> bool" where
  "smb2_negotiate c = (dialect c \<ge> uint SMB20_PROT_ID \<and> dialect c \<le> uint SMB311_PROT_ID)"

text \<open>
  \<^verbatim>\<open>smb_handle_negotiate\<close>: the function of this file when the legacy family is compiled
  out, the legacy family's own handler (an event) otherwise.
\<close>

definition smb_handle_negotiate :: "bool \<Rightarrow> externals \<Rightarrow> cifsd_work \<Rightarrow> int \<times> cifsd_work" where
  "smb_handle_negotiate insecure_server ext work =
     (if insecure_server
      then (smb1_handle_negotiate_ret ext, ran Smb1_handle_negotiate work)
      else (- EINVAL, work\<lparr>rsp_CifsError := NT_STATUS_INVALID_LOGON_TYPE\<rparr>))"

definition cifsd_smb_negotiate_common ::
  "bool \<Rightarrow> server_config \<Rightarrow> externals \<Rightarrow> cifsd_work \<Rightarrow> nat \<Rightarrow> int \<times> cifsd_work" where
  "cifsd_smb_negotiate_common insecure_server server_conf ext work command =
     (let work1 = work\<lparr>conn := (conn work)\<lparr>dialect :=
                    cifsd_negotiate_smb_dialect insecure_server server_conf (request work)\<rparr>\<rparr>;
          command1 = (if command = SMB2_NEGOTIATE_HE \<and>
                         ProtocolId (request work) \<noteq> SMB2_PROTO_NUMBER
                      then SMB_COM_NEGOTIATE else command)
      in if command1 = SMB2_NEGOTIATE_HE
         then (smb2_handle_negotiate_ret ext,
               ran Init_smb2_neg_rsp (ran Smb2_handle_negotiate work1))
         else if command1 = SMB_COM_NEGOTIATE
         then (if smb2_negotiate (conn work1)
               then (0, ran Init_smb2_neg_rsp
                          (cifsd_init_smb2_server_common ext
                             (work1\<lparr>conn := (conn work1)\<lparr>need_neg := True\<rparr>\<rparr>)))
               else smb_handle_negotiate insecure_server ext work1)
         else (- EINVAL, work1))"

lemma markers_differ: "SMB1_PROTO_NUMBER \<noteq> SMB2_PROTO_NUMBER"
  by (simp add: SMB1_PROTO_NUMBER_def SMB2_PROTO_NUMBER_def)

lemma negotiate_legacy_marker:
  "ProtocolId buf = SMB1_PROTO_NUMBER \<Longrightarrow>
   cifsd_negotiate_smb_dialect insecure_server server_conf buf =
     cifsd_lookup_dialect_by_name (smb_protos insecure_server) server_conf
       (DialectsArray buf) (ByteCount buf)"
  by (simp add: cifsd_negotiate_smb_dialect_def markers_differ)

text \<open>A work item for a legacy-marker negotiate request that offers the given names.\<close>

definition legacy_offer :: "string list \<Rightarrow> cifsd_work" where
  "legacy_offer ds =
     \<lparr>conn = \<lparr>dialect = uint BAD_PROT_ID, need_neg = True\<rparr>,
      request = \<lparr>ProtocolId = SMB1_PROTO_NUMBER, Dialects = [], DialectCount = 0,
                 DialectsArray = dialects_array ds, ByteCount = length (dialects_array ds)\<rparr>,
      rsp_CifsError = 0, calls = []\<rparr>"

definition quiet :: externals where
  "quiet = \<lparr>init_smb2_0_server_ret = 0, smb2_handle_negotiate_ret = 0,
            smb1_handle_negotiate_ret = 0\<rparr>"

text \<open>
  Claim C6. For a negotiate request whose header carries the legacy marker (passed with
  either negotiate command code), let \<open>d\<close> be the dialect that name matching selects.
  If \<open>d\<close> lies in the modern range SMB 2.0 .. SMB 3.1.1, the modern initializer runs
  (the baseline one, then the newer one when the baseline reports \<^verbatim>\<open>-ENOTSUPP\<close>),
  after it the modern negotiate response is built, and the call returns 0. If \<open>d\<close> is
  outside that range and the legacy family is compiled out, the response status is
  \<^verbatim>\<open>NT_STATUS_INVALID_LOGON_TYPE\<close> and the call returns \<^verbatim>\<open>-EINVAL\<close>.
\<close>

theorem legacy_negotiate_upgrade_or_reject:
  assumes marker: "ProtocolId (request work) = SMB1_PROTO_NUMBER"
    and cmd: "command = SMB2_NEGOTIATE_HE \<or> command = SMB_COM_NEGOTIATE"
    and sel: "d = cifsd_lookup_dialect_by_name (smb_protos insecure_server) server_conf
                (DialectsArray (request work)) (ByteCount (request work))"
    and res: "(ret, work') = cifsd_smb_negotiate_common insecure_server server_conf ext work command"
  shows "(uint SMB20_PROT_ID \<le> d \<and> d \<le> uint SMB311_PROT_ID \<longrightarrow>
            ret = 0 \<and>
            calls work' = calls work @
              (if init_smb2_0_server_ret ext = - ENOTSUPP
               then [Init_smb2_0_server, Init_smb2_1_server] else [Init_smb2_0_server]) @
              [Init_smb2_neg_rsp] \<and>
            dialect (conn work') = d \<and> need_neg (conn work') \<and>
            rsp_CifsError work' = rsp_CifsError work) \<and>
         (\<not> (uint SMB20_PROT_ID \<le> d \<and> d \<le> uint SMB311_PROT_ID) \<and> \<not> insecure_server \<longrightarrow>
            ret = - EINVAL \<and> rsp_CifsError work' = NT_STATUS_INVALID_LOGON_TYPE \<and>
            calls work' = calls work \<and> dialect (conn work') = d)"
proof -
  have dia: "cifsd_negotiate_smb_dialect insecure_server server_conf (request work) = d"
    using marker sel by (simp add: negotiate_legacy_marker)
  have c1: "(if command = SMB2_NEGOTIATE_HE \<and> ProtocolId (request work) \<noteq> SMB2_PROTO_NUMBER
             then SMB_COM_NEGOTIATE else command) = SMB_COM_NEGOTIATE"
    using cmd marker markers_differ by auto
  have ne: "SMB_COM_NEGOTIATE \<noteq> SMB2_NEGOTIATE_HE"
    by (simp add: SMB_COM_NEGOTIATE_def SMB2_NEGOTIATE_HE_def)
  show ?thesis
    using res
    unfolding cifsd_smb_negotiate_common_def Let_def c1 dia
    by (auto simp: ne smb2_negotiate_def smb_handle_negotiate_def ran_def
        cifsd_init_smb2_server_common_def)
qed


theorem legacy_negotiate_upgrade_or_reject_witness:
  "ProtocolId (request (legacy_offer
       [STX # ''NT LM 0.12'', STX # ''SMB 2.002'', STX # ''SMB 2.1'', STX # ''SMB 3.0''])) =
     SMB1_PROTO_NUMBER \<and>
   cifsd_lookup_dialect_by_name (smb_protos False)
       \<lparr>min_protocol = SMB2_PROT, max_protocol = SMB302_PROT\<rparr>
       (dialects_array
         [STX # ''NT LM 0.12'', STX # ''SMB 2.002'', STX # ''SMB 2.1'', STX # ''SMB 3.0''])
       (length (dialects_array
         [STX # ''NT LM 0.12'', STX # ''SMB 2.002'', STX # ''SMB 2.1'', STX # ''SMB 3.0'']))
     = 0x0300 \<and>
   fst (cifsd_smb_negotiate_common False
       \<lparr>min_protocol = SMB2_PROT, max_protocol = SMB302_PROT\<rparr> quiet
       (legacy_offer
         [STX # ''NT LM 0.12'', STX # ''SMB 2.002'', STX # ''SMB 2.1'', STX # ''SMB 3.0''])
       SMB_COM_NEGOTIATE) = 0 \<and>
   calls (snd (cifsd_smb_negotiate_common False
       \<lparr>min_protocol = SMB2_PROT, max_protocol = SMB302_PROT\<rparr> quiet
       (legacy_offer
         [STX # ''NT LM 0.12'', STX # ''SMB 2.002'', STX # ''SMB 2.1'', STX # ''SMB 3.0''])
       SMB_COM_NEGOTIATE)) = [Init_smb2_0_server, Init_smb2_neg_rsp] \<and>
   fst (cifsd_smb_negotiate_common False
       \<lparr>min_protocol = SMB2_PROT, max_protocol = SMB302_PROT\<rparr> quiet
       (legacy_offer [STX # ''NT LM 0.12'']) SMB_COM_NEGOTIATE) = - EINVAL \<and>
   rsp_CifsError (snd (cifsd_smb_negotiate_common False
       \<lparr>min_protocol = SMB2_PROT, max_protocol = SMB302_PROT\<rparr> quiet
       (legacy_offer [STX # ''NT LM 0.12'']) SMB_COM_NEGOTIATE)) = NT_STATUS_INVALID_LOGON_TYPE"
proof -
  let ?conf = "\<lparr>min_protocol = SMB2_PROT, max_protocol = SMB302_PROT\<rparr>"
  let ?ds = "[STX # ''NT LM 0.12'', STX # ''SMB 2.002'', STX # ''SMB 2.1'', STX # ''SMB 3.0'']"
  let ?w = "legacy_offer ?ds"
  let ?v = "legacy_offer [STX # ''NT LM 0.12'']"
  have m: "ProtocolId (request ?w) = SMB1_PROTO_NUMBER"
    by (simp add: legacy_offer_def)
  have m': "ProtocolId (request ?v) = SMB1_PROTO_NUMBER"
    by (simp add: legacy_offer_def)
  have c: "SMB_COM_NEGOTIATE = SMB2_NEGOTIATE_HE \<or> SMB_COM_NEGOTIATE = SMB_COM_NEGOTIATE"
    by simp
  have s0: "cifsd_lookup_dialect_by_name (smb_protos False) ?conf
      (dialects_array ?ds) (length (dialects_array ?ds)) = 0x0300"
    by code_simp
  have s: "0x0300 = cifsd_lookup_dialect_by_name (smb_protos False) ?conf
      (DialectsArray (request ?w)) (ByteCount (request ?w))"
    using s0 by (simp add: legacy_offer_def)
  have s': "uint BAD_PROT_ID = cifsd_lookup_dialect_by_name (smb_protos False) ?conf
      (DialectsArray (request ?v)) (ByteCount (request ?v))"
    by code_simp
  have r: "uint SMB20_PROT_ID \<le> 0x0300 \<and> (0x0300 :: int) \<le> uint SMB311_PROT_ID"
    by (simp add: prot_defs)
  have r': "\<not> (uint SMB20_PROT_ID \<le> uint BAD_PROT_ID \<and> uint BAD_PROT_ID \<le> uint SMB311_PROT_ID)"
    by (simp add: prot_defs)
  have q: "init_smb2_0_server_ret quiet \<noteq> - ENOTSUPP" "calls ?w = []"
    by (simp_all add: quiet_def ENOTSUPP_def legacy_offer_def)
  note up = legacy_negotiate_upgrade_or_reject [OF m c s prod.collapse, of quiet]
  note rej = legacy_negotiate_upgrade_or_reject [OF m' c s' prod.collapse, of quiet]
  from up r q have "fst (cifsd_smb_negotiate_common False ?conf quiet ?w SMB_COM_NEGOTIATE) = 0"
    and "calls (snd (cifsd_smb_negotiate_common False ?conf quiet ?w SMB_COM_NEGOTIATE))
       = [Init_smb2_0_server, Init_smb2_neg_rsp]"
    by simp_all
  moreover from rej r'
  have "fst (cifsd_smb_negotiate_common False ?conf quiet ?v SMB_COM_NEGOTIATE) = - EINVAL"
    and "rsp_CifsError (snd (cifsd_smb_negotiate_common False ?conf quiet ?v SMB_COM_NEGOTIATE))
       = NT_STATUS_INVALID_LOGON_TYPE"
    by simp_all
  ultimately show ?thesis using m s0 by simp
qed

section \<open>Short names (smb\_common.c)\<close>

text \<open>
  \<^verbatim>\<open>static const char basechars[43]\<close>: the array has exactly the 43 characters of its
  initialiser (there is no room for a terminating NUL), so \<^verbatim>\<open>sizeof(basechars)\<close> is 43
  and \<^verbatim>\<open>MANGLE_BASE\<close>, written \<^verbatim>\<open>(sizeof(basechars)/sizeof(char)-1)\<close>, is one less.
\<close>

definition basechars :: string where
  "basechars = ''0123456789ABCDEFGHIJKLMNOPQRSTUVWXYZ_-!@#$%''"

definition MANGLE_BASE :: nat where
  "MANGLE_BASE = length basechars div 1 - 1"

definition MAGIC_CHAR :: char where "MAGIC_CHAR = CHR ''~''"
definition PERIOD :: char where "PERIOD = CHR ''.''"

definition mangle :: "nat \<Rightarrow> char" where
  "mangle V = basechars ! (V mod MANGLE_BASE)"

text \<open>
  \<^verbatim>\<open>toupper\<close> on the ASCII letters (the kernel's table also maps the Latin-1 letters;
  nothing below depends on them).
\<close>

definition toupper :: "char \<Rightarrow> char" where
  "toupper c =
     (if (of_char (CHR ''a'') :: nat) \<le> of_char c \<and> (of_char c :: nat) \<le> of_char (CHR ''z'')
      then char_of ((of_char c :: nat) - 32) else c)"

text \<open>\<^verbatim>\<open>strlen\<close> and \<^verbatim>\<open>strrchr\<close> on a buffer: the string ends at the first NUL.\<close>

definition strlen :: "string \<Rightarrow> nat" where
  "strlen s = length (takeWhile (\<lambda>c. c \<noteq> NUL) s)"

fun strrchr :: "string \<Rightarrow> char \<Rightarrow> nat option" where
  "strrchr [] c = None"
| "strrchr (x # xs) c =
     (if x = NUL then None
      else case strrchr xs c of
             Some i \<Rightarrow> Some (Suc i)
           | None \<Rightarrow> (if x = c then Some 0 else None))"

text \<open>
  The two copying loops
  \<^verbatim>\<open>while (*p && len < limit) { if (*p != '.') dst[len++] = toupper(*p); p++; }\<close>:
  \<open>dst\<close> is what has been written so far.
\<close>

fun copy_upper :: "nat \<Rightarrow> string \<Rightarrow> string \<Rightarrow> string" where
  "copy_upper limit [] dst = dst"
| "copy_upper limit (c # p) dst =
     (if c \<noteq> NUL \<and> length dst < limit
      then copy_upper limit p (if c \<noteq> PERIOD then dst @ [toupper c] else dst)
      else dst)"

text \<open>The checksum loop: \<^verbatim>\<open>unsigned int csum\<close>, the bytes read as \<^verbatim>\<open>unsigned char\<close>.\<close>

fun csum_loop :: "string \<Rightarrow> 32 word \<Rightarrow> 32 word" where
  "csum_loop [] csum = csum"
| "csum_loop (c # ptr) csum = csum_loop ptr (csum + of_nat (of_char c))"

text \<open>
  \<^verbatim>\<open>cifsd_extract_shortname\<close>. The long name is the C string \<open>longname\<close> (its bytes
  without the terminating NUL). The result is the returned length and the short name
  written (\<open>None\<close>: nothing is written), before its conversion to UTF-16.
\<close>

definition cifsd_extract_shortname :: "string \<Rightarrow> int \<times> string option" where
  "cifsd_extract_shortname longname =
     (if (longname \<noteq> [] \<and> hd longname = PERIOD) \<or> longname = ''..''
      then (0, None)
      else
        let p = strrchr longname PERIOD;
            (extension, dot_present) =
               (if p = Some 0 then (''___'', True)
                else case p of
                       Some i \<Rightarrow> (copy_upper 3 (drop (Suc i) longname) [], True)
                     | None \<Rightarrow> ([], False));
            (longname1, start) =
               (if longname \<noteq> [] \<and> hd longname = PERIOD
                then (NUL # tl longname, 1) else (longname, 0::nat));
            base = copy_upper 5 (drop start longname1) [];
            csum = unat (csum_loop (take (strlen longname1) longname1) 0)
                     mod (MANGLE_BASE * MANGLE_BASE);
            out = base @ [MAGIC_CHAR] @ [mangle (csum div MANGLE_BASE), mangle csum] @ [PERIOD]
                    @ (if dot_present then extension else [])
        in (2 * int (strlen out), Some out))"

subsection \<open>What the function computes\<close>

text \<open>
  No short name is written exactly for the names that begin with a period. For every
  other name the two characters behind the magic character are the base-42 digits of
  the byte sum (as an \<^verbatim>\<open>unsigned int\<close>) modulo \<open>42 * 42\<close>.
\<close>

lemma csum_loop_sum:
  "csum_loop s csum = csum + of_nat (sum_list (map (of_char :: char \<Rightarrow> nat) s))"
  by (induction s arbitrary: csum) (simp_all add: add.assoc)

lemma unat_csum_loop:
  "unat (csum_loop s 0) = sum_list (map (of_char :: char \<Rightarrow> nat) s) mod 2 ^ 32"
  by (simp add: csum_loop_sum unat_of_nat)

lemma strlen_no_NUL:
  assumes "NUL \<notin> set s"
  shows "strlen s = length s" and "take (strlen s) s = s"
proof -
  have t: "takeWhile (\<lambda>c. c \<noteq> NUL) s = s"
    using assms by (auto simp: takeWhile_eq_all_conv)
  show "strlen s = length s" unfolding strlen_def t ..
  show "take (strlen s) s = s" unfolding strlen_def t by simp
qed

lemma MANGLE_BASE_42: "MANGLE_BASE = 42"
  by (simp add: MANGLE_BASE_def basechars_def)

lemma no_shortname_iff:
  "snd (cifsd_extract_shortname longname) = None \<longleftrightarrow> longname \<noteq> [] \<and> hd longname = PERIOD"
  by (auto simp: cifsd_extract_shortname_def Let_def PERIOD_def split: prod.splits)

lemma shortname_checksum_digits:
  assumes "longname = [] \<or> hd longname \<noteq> PERIOD" and "NUL \<notin> set longname"
    and "s = sum_list (map (of_char :: char \<Rightarrow> nat) longname) mod 2 ^ 32"
  shows "\<exists>ext. snd (cifsd_extract_shortname longname) =
     Some (copy_upper 5 longname [] @
           [MAGIC_CHAR, basechars ! (s mod (42 * 42) div 42), basechars ! (s mod 42), PERIOD] @
           ext)"
proof -
  have n: "(longname \<noteq> [] \<and> hd longname = PERIOD) = False" using assms(1) by auto
  have d: "(longname = ''..'') = False" using assms(1) by (auto simp: PERIOD_def)
  have m: "s mod 1764 mod 42 = s mod 42"
    by (simp add: mod_mod_cancel)
  have "s mod 1764 div 42 < 42"
    by (simp add: less_mult_imp_div_less)
  then have v: "s mod 1764 div 42 mod 42 = s mod 1764 div 42"
    by simp
  have c: "unat (csum_loop longname 0) = s"
    by (simp add: unat_csum_loop assms(3))
  show ?thesis
    unfolding cifsd_extract_shortname_def n d
    by (simp add: Let_def mangle_def MANGLE_BASE_42 strlen_no_NUL [OF assms(2)] c m v
        split: prod.splits)
qed


subsection \<open>The checksum and the names that begin with a period\<close>

text \<open>
  The checksum characters as the specification words them: the sum of the bytes of the
  long name modulo 43 * 43, written as two base-43 digits (most significant first)
  through the 43-character alphabet.
\<close>

definition checksum_base43 :: "string \<Rightarrow> string" where
  "checksum_base43 longname =
     (let v = sum_list (map (of_char :: char \<Rightarrow> nat) longname) mod (43 * 43)
      in [basechars ! (v div 43), basechars ! (v mod 43)])"

text \<open>
  Claim C2: the two checksum characters are the base-43 digits of the byte sum modulo
  \<open>43 * 43 = 1849\<close>, through the 43-character alphabet. The code departs from it: it
  reduces the sum modulo \<open>42 * 42\<close> and writes base-42 digits, because
  \<^verbatim>\<open>MANGLE_BASE\<close> is one less than the number of characters of the alphabet. The bytes
  of \<open>longfilename.txt\<close> sum to 1663; the short name is \<open>LONGF~@P.TXT\<close>, with the
  checksum characters \<open>@P\<close> (digits 39 and 25), where the base-43 digits of 1663
  modulo 1849 (38 and 29) give \<open>!T\<close>.
\<close>

theorem shortname_checksum_uses_base_42:
  "cifsd_extract_shortname ''longfilename.txt'' = (24, Some ''LONGF~@P.TXT'') \<and>
   checksum_base43 ''longfilename.txt'' = ''!T'' \<and>
   sum_list (map (of_char :: char \<Rightarrow> nat) ''longfilename.txt'') = 1663 \<and>
   MANGLE_BASE = 42 \<and> length basechars = 43"
  by code_simp

text \<open>
  Claim C3: no short name is made exactly for the names \<open>.\<close> and \<open>..\<close>; every other
  name, also one that begins with a period, gets one, and a name whose only period is
  its first character gets the extension \<open>___\<close>. The code departs from it: its first
  test, \<^verbatim>\<open>*p == '.'\<close>, looks at the first character only, so every name that begins
  with a period returns length 0 with no short name written; the branch that would give
  such a name the extension \<open>___\<close> is never reached.
\<close>

theorem shortname_of_dot_file_is_empty:
  "cifsd_extract_shortname ''.bashrc'' = (0, None) \<and>
   cifsd_extract_shortname ''.'' = (0, None) \<and>
   cifsd_extract_shortname ''..'' = (0, None) \<and>
   cifsd_extract_shortname ''bashrc'' = (18, Some ''BASHR~E@.'')"
  by code_simp

section \<open>The dot and dot-dot entries of a directory listing (smb\_common.c)\<close>

text \<open>
  \<^verbatim>\<open>struct cifsd_kstat\<close> as this function fills it: the attribute word and the status
  (\<^verbatim>\<open>struct kstat\<close>) that \<^verbatim>\<open>generic_fillattr\<close> reads from an inode. The status of an
  inode is kept abstract (\<open>'k\<close>).
\<close>

record 'k cifsd_kstat =
  file_attributes :: "32 word"
  kstat :: 'k

text \<open>
  \<^verbatim>\<open>struct cifsd_dir_info\<close>: the name of the entry to encode, the room left in the
  destination buffer, and the destination buffer itself (\<open>'b\<close>; only the encode callback
  touches it).
\<close>

record 'b cifsd_dir_info =
  d_info_name :: string
  out_buf_len :: int
  out_buf :: 'b

text \<open>
  \<^verbatim>\<open>struct cifsd_file\<close> for an open directory: the two flags \<^verbatim>\<open>dot_dotdot[2]\<close>, and
  the status of the two inodes that can be reached from it, the directory's own and its
  parent's.
\<close>

record 'k cifsd_file =
  dot_dotdot :: "bool list"
  own_inode :: 'k
  parent_inode :: 'k

text \<open>
  Modelled from the spec: the macro \<^verbatim>\<open>PARENT_INODE\<close> and the constant
  \<^verbatim>\<open>ATTR_DIRECTORY\<close> are declared in headers that are not part of the sources at hand.
  As its name and the spec's parent-status say, \<^verbatim>\<open>PARENT_INODE(dir)\<close> is the inode of
  the parent of the open directory.
\<close>

definition PARENT_INODE :: "'k cifsd_file \<Rightarrow> 'k" where
  "PARENT_INODE dir = parent_inode dir"

definition ATTR_DIRECTORY :: "32 word" where "ATTR_DIRECTORY = 0x0010"

text \<open>
  The loop \<^verbatim>\<open>for (i = 0; i < 2; i++)\<close> of \<^verbatim>\<open>cifsd_populate_dot_dotdot_entries\<close>. The
  pattern matcher \<^verbatim>\<open>is_matched\<close> and the encode callback \<open>fn\<close> are the caller's; \<open>fn\<close>
  returns its status and the directory info as it leaves it. The result is the returned
  \<open>rc\<close> with the directory and the directory info after the call.
\<close>

function populate_loop ::
  "(string \<Rightarrow> string \<Rightarrow> bool) \<Rightarrow>
   (int \<Rightarrow> 'b cifsd_dir_info \<Rightarrow> 'k cifsd_kstat \<Rightarrow> int \<times> 'b cifsd_dir_info) \<Rightarrow>
   int \<Rightarrow> string \<Rightarrow> nat \<Rightarrow> int \<Rightarrow> 'k cifsd_file \<Rightarrow> 'b cifsd_dir_info \<Rightarrow>
   int \<times> 'k cifsd_file \<times> 'b cifsd_dir_info" where
  "populate_loop is_matched fn info_level search_pattern i rc dir d_info =
     (if i < 2 then
        (if \<not> dot_dotdot dir ! i then
           (let d1 = d_info\<lparr>d_info_name := (if i = 0 then ''.'' else ''..'')\<rparr> in
            if \<not> is_matched (d_info_name d1) search_pattern
            then populate_loop is_matched fn info_level search_pattern (i + 1) rc
                   (dir\<lparr>dot_dotdot := (dot_dotdot dir)[i := True]\<rparr>) d1
            else
              (let ks = \<lparr>file_attributes = ATTR_DIRECTORY, kstat = PARENT_INODE dir\<rparr>;
                   r = fn info_level d1 ks
               in if fst r \<noteq> 0 then (fst r, dir, snd r)
                  else if out_buf_len (snd r) \<le> 0 then (fst r, dir, snd r)
                  else populate_loop is_matched fn info_level search_pattern (i + 1) (fst r)
                         (dir\<lparr>dot_dotdot := (dot_dotdot dir)[i := True]\<rparr>) (snd r)))
         else populate_loop is_matched fn info_level search_pattern (i + 1) rc dir d_info)
      else (rc, dir, d_info))"
  by pat_completeness auto
termination
  by (relation "measure (\<lambda>(is_matched, fn, info_level, search_pattern, i, rc, dir, d_info). 2 - i)")
     auto

declare populate_loop.simps [simp del]

definition cifsd_populate_dot_dotdot_entries ::
  "(string \<Rightarrow> string \<Rightarrow> bool) \<Rightarrow>
   (int \<Rightarrow> 'b cifsd_dir_info \<Rightarrow> 'k cifsd_kstat \<Rightarrow> int \<times> 'b cifsd_dir_info) \<Rightarrow>
   int \<Rightarrow> 'k cifsd_file \<Rightarrow> 'b cifsd_dir_info \<Rightarrow> string \<Rightarrow>
   int \<times> 'k cifsd_file \<times> 'b cifsd_dir_info" where
  "cifsd_populate_dot_dotdot_entries is_matched fn info_level dir d_info search_pattern =
     populate_loop is_matched fn info_level search_pattern 0 0 dir d_info"

text \<open>
  An encode callback of the usual shape, for running the emitter: a record takes
  \<open>sz\<close> bytes; when it does not fit, nothing is written and the callback reports
  \<^verbatim>\<open>-ENOSPC\<close> with the room set to \<open>-1\<close>; otherwise the record (the name and the status
  passed in) is appended and the room shrinks by \<open>sz\<close>.
\<close>

definition ENOSPC :: int where "ENOSPC = 28"

definition encode_entry ::
  "int \<Rightarrow> int \<Rightarrow> (string \<times> 'k cifsd_kstat) list cifsd_dir_info \<Rightarrow> 'k cifsd_kstat \<Rightarrow>
   int \<times> (string \<times> 'k cifsd_kstat) list cifsd_dir_info" where
  "encode_entry sz info_level d_info ks =
     (if sz > out_buf_len d_info then (- ENOSPC, d_info\<lparr>out_buf_len := - 1\<rparr>)
      else (0, d_info\<lparr>out_buf_len := out_buf_len d_info - sz,
                      out_buf := out_buf d_info @ [(d_info_name d_info, ks)]\<rparr>))"

definition match_all :: "string \<Rightarrow> string \<Rightarrow> bool" where
  "match_all nm pat = True"

definition fresh_buf :: "int \<Rightarrow> (string \<times> 'k cifsd_kstat) list cifsd_dir_info" where
  "fresh_buf room = \<lparr>d_info_name = [], out_buf_len = room, out_buf = []\<rparr>"

text \<open>
  Claim C4: the encode callback is given the directory's own status for \<open>.\<close> and the
  parent directory's status for \<open>..\<close>. The code departs from it: the status is read
  from \<^verbatim>\<open>PARENT_INODE(dir)\<close> for both pseudo-entries. For a directory whose own status
  is 1 and whose parent's status is 2, the callback receives status 2 for \<open>.\<close> as well
  as for \<open>..\<close>; the directory's own status is never passed.
\<close>

theorem dot_entry_is_encoded_with_parent_status:
  "cifsd_populate_dot_dotdot_entries match_all (encode_entry 8) 1
     \<lparr>dot_dotdot = [False, False], own_inode = 1 :: nat, parent_inode = 2\<rparr>
     (fresh_buf 100) ''*'' =
   (0, \<lparr>dot_dotdot = [True, True], own_inode = 1, parent_inode = 2\<rparr>,
    \<lparr>d_info_name = ''..'', out_buf_len = 84,
     out_buf = [(''.'', \<lparr>file_attributes = ATTR_DIRECTORY, kstat = 2\<rparr>),
                (''..'', \<lparr>file_attributes = ATTR_DIRECTORY, kstat = 2\<rparr>)]\<rparr>)"
  by code_simp

text \<open>
  Claim C9: over any sequence of calls each matching pseudo-entry is encoded exactly
  once, never twice and never skipped, also when the buffer fills after every single
  entry. The code departs from it: after a successful encode it still leaves the entry
  unmarked when the room left is \<open>\<le> 0\<close>. When a record fills the buffer exactly (8
  bytes of room, a record of 8 bytes), the first call encodes \<open>.\<close>, returns 0 and
  leaves both flags clear; the next call, on a fresh buffer of the same size, encodes
  \<open>.\<close> again and \<open>..\<close> is not reached. With 12 bytes of room the same two calls
  give \<open>.\<close> and then \<open>..\<close>, once each.
\<close>

theorem dot_entry_is_encoded_twice_on_exact_fit:
  "(case cifsd_populate_dot_dotdot_entries match_all (encode_entry 8) 1
           \<lparr>dot_dotdot = [False, False], own_inode = 1 :: nat, parent_inode = 2\<rparr>
           (fresh_buf 8) ''*'' of
      (rc1, dir1, d1) \<Rightarrow>
        (case cifsd_populate_dot_dotdot_entries match_all (encode_entry 8) 1 dir1
                (fresh_buf 8) ''*'' of
           (rc2, dir2, d2) \<Rightarrow>
             (rc1, dot_dotdot dir1, map fst (out_buf d1),
              rc2, dot_dotdot dir2, map fst (out_buf d2)))) =
     (0, [False, False], [''.''], 0, [False, False], [''.'']) \<and>
   (case cifsd_populate_dot_dotdot_entries match_all (encode_entry 8) 1
           \<lparr>dot_dotdot = [False, False], own_inode = 1 :: nat, parent_inode = 2\<rparr>
           (fresh_buf 12) ''*'' of
      (rc1, dir1, d1) \<Rightarrow>
        (case cifsd_populate_dot_dotdot_entries match_all (encode_entry 8) 1 dir1
                (fresh_buf 12) ''*'' of
           (rc2, dir2, d2) \<Rightarrow>
             (rc1, dot_dotdot dir1, map fst (out_buf d1),
              rc2, dot_dotdot dir2, map fst (out_buf d2)))) =
     (- ENOSPC, [True, False], [''.''], 0, [True, True], [''..''])"
  by code_simp

section \<open>Directory records (smb\_common.c)\<close>

text \<open>
  \<^verbatim>\<open>struct cifsd_dirent\<close>, one record of the listing buffer, and
  \<^verbatim>\<open>struct cifsd_readdir_data\<close>, the buffer: a page of records (kept as a store from the
  byte offset at which a record starts to the record), the number of bytes used, the
  number of records, and the flag \<open>full\<close>.
\<close>

record cifsd_dirent =
  namelen :: nat
  offset :: int
  ino :: nat
  d_type :: nat
  dirent_name :: string

record cifsd_readdir_data =
  dirent :: "nat \<rightharpoonup> cifsd_dirent"
  used :: nat
  dirent_count :: nat
  full :: bool

text \<open>
  Modelled from the spec: the kernel macro \<^verbatim>\<open>ALIGN\<close> is not part of the sources at hand;
  the spec says that the record length is rounded up to an 8-byte alignment.
\<close>

definition ALIGN :: "nat \<Rightarrow> nat \<Rightarrow> nat" where
  "ALIGN x a = ((x + (a - 1)) div a) * a"

text \<open>
  \<^verbatim>\<open>cifsd_fill_dirent\<close>. The size of the record header,
  \<^verbatim>\<open>sizeof(struct cifsd_dirent)\<close>, and \<^verbatim>\<open>PAGE_SIZE\<close> come from headers that are not
  at hand and are parameters. \<open>reclen\<close> is an \<^verbatim>\<open>unsigned int\<close>, and so is the sum
  compared with the page size: both wrap at \<open>2 ^ 32\<close>. The name is copied with
  \<^verbatim>\<open>memcpy(de->name, name, namlen)\<close>.
\<close>

definition cifsd_fill_dirent ::
  "nat \<Rightarrow> nat \<Rightarrow> cifsd_readdir_data \<Rightarrow> string \<Rightarrow> nat \<Rightarrow> int \<Rightarrow> nat \<Rightarrow> nat \<Rightarrow>
   int \<times> cifsd_readdir_data" where
  "cifsd_fill_dirent sizeof_dirent PAGE_SIZE buf nm namlen off inode dtype =
     (let reclen = ALIGN (sizeof_dirent + namlen) 8 mod 2 ^ 32 in
      if (used buf + reclen) mod 2 ^ 32 > PAGE_SIZE
      then (- EINVAL, buf\<lparr>full := True\<rparr>)
      else (0, buf\<lparr>dirent := (dirent buf)(used buf \<mapsto>
                       \<lparr>namelen = namlen, offset = off, ino = inode, d_type = dtype,
                        dirent_name = take namlen nm\<rparr>),
                    used := used buf + reclen,
                    dirent_count := dirent_count buf + 1\<rparr>))"

text \<open>An empty listing buffer, for running the function.\<close>

definition empty_page :: cifsd_readdir_data where
  "empty_page = \<lparr>dirent = Map.empty, used = 0, dirent_count = 0, full = False\<rparr>"

text \<open>
  Claim C10. The record length is the header size plus the name length, rounded up to a
  multiple of 8. If the record would end beyond the page, the call fails with
  \<^verbatim>\<open>-EINVAL\<close> and only raises the flag \<open>full\<close>: the used length, the record count and
  the stored records are as before. Otherwise the record is stored at the old used
  length, the used length grows by the record length and the count by one. The name
  length is that of an \<^verbatim>\<open>int\<close>, the buffer is within its page, and a page with a
  record header is far below \<open>2 ^ 31\<close> bytes.
\<close>

theorem fill_dirent_all_or_nothing:
  assumes "namlen < 2 ^ 31" and "used buf \<le> PAGE_SIZE"
    and "PAGE_SIZE + sizeof_dirent + 7 \<le> 2 ^ 31"
    and "reclen = ((sizeof_dirent + namlen + 7) div 8) * 8"
  shows "(used buf + reclen > PAGE_SIZE \<longrightarrow>
            cifsd_fill_dirent sizeof_dirent PAGE_SIZE buf nm namlen off inode dtype =
              (- EINVAL, buf\<lparr>full := True\<rparr>)) \<and>
         (used buf + reclen \<le> PAGE_SIZE \<longrightarrow>
            cifsd_fill_dirent sizeof_dirent PAGE_SIZE buf nm namlen off inode dtype =
              (0, buf\<lparr>dirent := (dirent buf)(used buf \<mapsto>
                         \<lparr>namelen = namlen, offset = off, ino = inode, d_type = dtype,
                          dirent_name = take namlen nm\<rparr>),
                       used := used buf + reclen,
                       dirent_count := dirent_count buf + 1\<rparr>))"
proof -
  have nowrap: "used buf + sizeof_dirent + namlen + 7 < 2 ^ 32"
    using assms(1,2,3) by simp
  have le: "reclen \<le> sizeof_dirent + namlen + 7"
    unfolding assms(4) by simp
  have a: "ALIGN (sizeof_dirent + namlen) 8 = reclen"
    by (simp add: ALIGN_def assms(4) add.assoc)
  have r: "reclen mod 4294967296 = reclen"
    using le nowrap by simp
  have u: "(used buf + reclen) mod 4294967296 = used buf + reclen"
    using le nowrap by simp
  show ?thesis
    by (simp add: cifsd_fill_dirent_def a r u Let_def)
qed

theorem fill_dirent_all_or_nothing_witness:
  "cifsd_fill_dirent 24 4096 empty_page ''hello.txt'' 9 0 77 8 =
     (0, empty_page\<lparr>dirent := (dirent empty_page)(0 \<mapsto>
              \<lparr>namelen = 9, offset = 0, ino = 77, d_type = 8, dirent_name = ''hello.txt''\<rparr>),
            used := 40, dirent_count := 1\<rparr>) \<and>
   cifsd_fill_dirent 24 4096 (empty_page\<lparr>used := 4080\<rparr>) ''hello.txt'' 9 0 77 8 =
     (- EINVAL, empty_page\<lparr>used := 4080, full := True\<rparr>)"
proof -
  have u: "used empty_page = 0" "dirent_count empty_page = 0"
    by (simp_all add: empty_page_def)
  have n: "(9::nat) < 2 ^ 31" by simp
  have h1: "used empty_page \<le> 4096"
    by (simp add: empty_page_def)
  have h2: "used (empty_page\<lparr>used := 4080\<rparr>) \<le> 4096"
    by simp
  have p: "(4096::nat) + 24 + 7 \<le> 2 ^ 31" by simp
  have r: "(40::nat) = ((24 + 9 + 7) div 8) * 8" by simp
  from fill_dirent_all_or_nothing [OF n h1 p r, of "''hello.txt''" 0 77 8]
    fill_dirent_all_or_nothing [OF n h2 p r, of "''hello.txt''" 0 77 8] u
  show ?thesis by simp
qed


section \<open>Reading from the socket (connect.c)\<close>

subsection \<open>Destination segments\<close>

text \<open>
  \<^verbatim>\<open>struct kvec\<close>: a segment of memory, by the address of its first byte and its
  length. Memory is a store from addresses to bytes.
\<close>

record kvec =
  iov_base :: nat
  iov_len :: nat

type_synonym byte = "8 word"
type_synonym memory = "nat \<Rightarrow> byte"

text \<open>The addresses that a vector of segments covers, in the order in which it is filled.\<close>

definition seg_addrs :: "kvec \<Rightarrow> nat list" where
  "seg_addrs v = [iov_base v ..< iov_base v + iov_len v]"

definition addrs :: "kvec list \<Rightarrow> nat list" where
  "addrs iov = concat (map seg_addrs iov)"

text \<open>
  The loop of \<^verbatim>\<open>kvec_array_init\<close>. The pointer \<open>iov\<close> walks along the caller's array:
  it is the list of the segments from the current one on, and \<^verbatim>\<open>iov++\<close> drops the
  head. The loop has no bound of its own: stepping behind the last segment is a read
  outside the array, for which there is no result (\<open>None\<close>).
\<close>

partial_function (option) kvec_array_loop ::
  "kvec list \<Rightarrow> nat \<Rightarrow> nat \<Rightarrow> nat \<Rightarrow> (kvec list \<times> nat \<times> nat) option" where
  "kvec_array_loop iov nr_segs bytes base =
     (case iov of
        [] \<Rightarrow> None
      | v # rest \<Rightarrow>
          if bytes \<noteq> 0 \<or> iov_len v = 0
          then (if iov_len v = base + min bytes (iov_len v)
                then kvec_array_loop rest (nr_segs - 1) (bytes - min bytes (iov_len v)) 0
                else kvec_array_loop iov nr_segs (bytes - min bytes (iov_len v))
                       (base + min bytes (iov_len v)))
          else Some (iov, nr_segs, base))"

declare kvec_array_loop.simps [code]

text \<open>
  \<^verbatim>\<open>kvec_array_init\<close>: the array \<open>new\<close> that it writes (the \<open>nr_segs\<close> segments from
  the current one on, the first of them advanced by \<open>base\<close>) and the count it returns.
\<close>

definition kvec_array_init :: "kvec list \<Rightarrow> nat \<Rightarrow> nat \<Rightarrow> (kvec list \<times> nat) option" where
  "kvec_array_init iov nr_segs bytes =
     (case kvec_array_loop iov nr_segs bytes 0 of
        None \<Rightarrow> None
      | Some (iov1, nr_segs1, base) \<Rightarrow>
          (case take nr_segs1 iov1 of
             [] \<Rightarrow> Some ([], nr_segs1)
           | v # new \<Rightarrow>
               Some (v\<lparr>iov_base := iov_base v + base, iov_len := iov_len v - base\<rparr> # new,
                     nr_segs1)))"


subsection \<open>The connection and its environment\<close>

text \<open>
  Modelled from the spec: the errno values and \<^verbatim>\<open>SMB_ECHO_INTERVAL\<close> come from headers
  that are not part of the sources at hand. The spec gives the keep-alive interval
  through its double, 120 seconds; \<open>HZ\<close>, the number of jiffies in a second, is a
  parameter of the kernel build.
\<close>

definition EAGAIN :: int where "EAGAIN = 11"
definition ENOMEM :: int where "ENOMEM = 12"
definition EINTR :: int where "EINTR = 4"
definition ESHUTDOWN :: int where "ESHUTDOWN = 108"
definition ERESTARTSYS :: int where "ERESTARTSYS = 512"

definition SMB_ECHO_INTERVAL :: "nat \<Rightarrow> 64 word" where
  "SMB_ECHO_INTERVAL HZ = 60 * of_nat HZ"

text \<open>
  \<^verbatim>\<open>struct tcp_server_info\<close> as the reader uses it: the time of the last activity (in
  jiffies, an \<^verbatim>\<open>unsigned long\<close>), whether the scratch vector \<^verbatim>\<open>server->iov\<close> is
  allocated, and its capacity.
\<close>

record tcp_server_info =
  last_active :: "64 word"
  server_iov :: bool
  nr_iov :: nat

datatype statusEnum = CifsGood | CifsExiting | CifsNeedReconnect

text \<open>
  What \<^verbatim>\<open>kernel_recvmsg\<close> meets at one call: \<open>Avail k\<close>, \<open>k\<close> bytes of the stream
  have arrived and can be taken (none: the peer has closed, the call returns 0), or
  \<open>Err e\<close>, the call returns \<open>-e\<close>.
\<close>

datatype sock_event = Avail nat | Err int

text \<open>
  One pass of the read loop sees the clock (\<^verbatim>\<open>jiffies\<close>) at its liveness check, the
  socket at its receive, and \<^verbatim>\<open>server->tcp_status\<close> (set by other contexts) after it.
\<close>

record tick =
  now :: "64 word"
  ev :: sock_event
  tcp_status :: statusEnum

text \<open>
  The world outside the function: the bytes of the stream not yet received, memory, and
  the number of calls of \<^verbatim>\<open>kernel_recvmsg\<close> made so far.
\<close>

record world =
  rx :: "byte list"
  mem :: memory
  n_recv :: nat

text \<open>\<^verbatim>\<open>time_after(a, b)\<close> is \<^verbatim>\<open>((long)((b) - (a)) < 0)\<close>.\<close>

definition time_after :: "64 word \<Rightarrow> 64 word \<Rightarrow> bool" where
  "time_after a b = (sint (b - a) < 0)"

text \<open>
  \<^verbatim>\<open>server_unresponsive\<close>; the flag is \<^verbatim>\<open>CONFIG_CIFS_SMB2_SERVER\<close>, without which the
  check is compiled out.
\<close>

definition server_unresponsive :: "bool \<Rightarrow> nat \<Rightarrow> 64 word \<Rightarrow> tcp_server_info \<Rightarrow> bool" where
  "server_unresponsive smb2_server HZ jiffies server =
     (if smb2_server
      then (if time_after jiffies (last_active server + 2 * SMB_ECHO_INTERVAL HZ)
            then True else False)
      else False)"

text \<open>\<^verbatim>\<open>get_server_iovec\<close>; \<open>kmalloc_ok\<close> says whether an allocation would succeed.\<close>

definition get_server_iovec :: "bool \<Rightarrow> tcp_server_info \<Rightarrow> nat \<Rightarrow> bool \<times> tcp_server_info" where
  "get_server_iovec kmalloc_ok server nr_segs =
     (if server_iov server \<and> nr_segs \<le> nr_iov server then (True, server)
      else if kmalloc_ok then (True, server\<lparr>server_iov := True, nr_iov := nr_segs\<rparr>)
      else (False, server))"

text \<open>
  \<^verbatim>\<open>kernel_recvmsg(sock, msg, iov, segs, to_read, 0)\<close>: it takes what has arrived, at
  most \<open>to_read\<close> bytes and at most what the segments hold, from the front of the
  stream and stores it at the addresses of the segments, in order.
\<close>

definition deliver :: "nat list \<Rightarrow> byte list \<Rightarrow> memory \<Rightarrow> memory" where
  "deliver as bs m = fold (\<lambda>(a, b) m. m(a := b)) (zip as bs) m"

definition kernel_recvmsg :: "sock_event \<Rightarrow> world \<Rightarrow> kvec list \<Rightarrow> nat \<Rightarrow> int \<times> world" where
  "kernel_recvmsg e w new to_read =
     (case e of
        Err n \<Rightarrow> (- n, w\<lparr>n_recv := n_recv w + 1\<rparr>)
      | Avail k \<Rightarrow>
          (let bs = take (min k (min to_read (length (addrs new)))) (rx w)
           in (int (length bs),
               w\<lparr>rx := drop (length bs) (rx w), mem := deliver (addrs new) bs (mem w),
                 n_recv := n_recv w + 1\<rparr>)))"

subsection \<open>The read loop\<close>

text \<open>
  The \<^verbatim>\<open>for\<close> loop of \<^verbatim>\<open>cifssrv_readv_from_socket\<close>, one pass per tick. When the
  ticks run out while bytes are still to be read, the loop has not returned yet: there
  is no result (\<open>None\<close>). Neither is there one when \<^verbatim>\<open>kvec_array_init\<close> leaves the
  array.
\<close>

fun readv_loop ::
  "bool \<Rightarrow> nat \<Rightarrow> tcp_server_info \<Rightarrow> kvec list \<Rightarrow> nat \<Rightarrow> nat \<Rightarrow> int \<Rightarrow> tick list \<Rightarrow> world \<Rightarrow>
   (int \<times> world) option" where
  "readv_loop smb2_server HZ server iov_orig nr_segs to_read total_read [] w =
     (if to_read = 0 then Some (total_read, w) else None)"
| "readv_loop smb2_server HZ server iov_orig nr_segs to_read total_read (t # ticks) w =
     (if to_read = 0 then Some (total_read, w)
      else if server_unresponsive smb2_server HZ (now t) server then Some (- EAGAIN, w)
      else
        (case kvec_array_init iov_orig nr_segs (nat total_read) of
           None \<Rightarrow> None
         | Some (new, segs) \<Rightarrow>
             (case kernel_recvmsg (ev t) w new to_read of
                (len, w1) \<Rightarrow>
                  if tcp_status t = CifsExiting then Some (- ESHUTDOWN, w1)
                  else if tcp_status t = CifsNeedReconnect then Some (- EAGAIN, w1)
                  else if len = - ERESTARTSYS \<or> len = - EAGAIN \<or> len = - EINTR
                  then readv_loop smb2_server HZ server iov_orig nr_segs to_read total_read
                         ticks w1
                  else if len \<le> 0 then Some (- EAGAIN, w1)
                  else readv_loop smb2_server HZ server iov_orig nr_segs
                         (to_read - nat len) (total_read + len) ticks w1)))"

definition cifssrv_readv_from_socket ::
  "bool \<Rightarrow> nat \<Rightarrow> bool \<Rightarrow> tcp_server_info \<Rightarrow> kvec list \<Rightarrow> nat \<Rightarrow> nat \<Rightarrow> tick list \<Rightarrow> world \<Rightarrow>
   (int \<times> tcp_server_info \<times> world) option" where
  "cifssrv_readv_from_socket smb2_server HZ kmalloc_ok server iov_orig nr_segs to_read ticks w =
     (case get_server_iovec kmalloc_ok server nr_segs of
        (False, server1) \<Rightarrow> Some (- ENOMEM, server1, w)
      | (True, server1) \<Rightarrow>
          (case readv_loop smb2_server HZ server1 iov_orig nr_segs to_read 0 ticks w of
             None \<Rightarrow> None
           | Some (total_read, w1) \<Rightarrow> Some (total_read, server1, w1)))"

text \<open>\<^verbatim>\<open>cifssrv_read_from_socket\<close>: the read into one buffer.\<close>

definition cifssrv_read_from_socket ::
  "bool \<Rightarrow> nat \<Rightarrow> bool \<Rightarrow> tcp_server_info \<Rightarrow> nat \<Rightarrow> nat \<Rightarrow> tick list \<Rightarrow> world \<Rightarrow>
   (int \<times> tcp_server_info \<times> world) option" where
  "cifssrv_read_from_socket smb2_server HZ kmalloc_ok server buf to_read ticks w =
     cifssrv_readv_from_socket smb2_server HZ kmalloc_ok server
       [\<lparr>iov_base = buf, iov_len = to_read\<rparr>] 1 to_read ticks w"

text \<open>
  A destination of three segments (the middle one empty), a stream of twelve bytes, a
  connection last active at jiffy 1000, and a run of ticks that delivers the stream in
  three pieces with two transient failures between them; for running the reader.
\<close>

definition sample_iov :: "kvec list" where
  "sample_iov = [\<lparr>iov_base = 100, iov_len = 4\<rparr>, \<lparr>iov_base = 200, iov_len = 0\<rparr>,
                 \<lparr>iov_base = 300, iov_len = 6\<rparr>]"

definition sample_world :: world where
  "sample_world = \<lparr>rx = [1,2,3,4,5,6,7,8,9,10,11,12], mem = (\<lambda>a. 0), n_recv = 0\<rparr>"

definition idle_server :: tcp_server_info where
  "idle_server = \<lparr>last_active = 1000, server_iov = False, nr_iov = 0\<rparr>"






text \<open>What a call returned and how many times it called \<^verbatim>\<open>kernel_recvmsg\<close>.\<close>

definition outcome :: "(int \<times> tcp_server_info \<times> world) option \<Rightarrow> (int \<times> nat) option" where
  "outcome r = map_option (\<lambda>(total_read, server, w). (total_read, n_recv w)) r"


subsection \<open>The view of the destination\<close>








subsection \<open>Delivery into memory\<close>

lemma deliver_Nil [simp]: "deliver as [] m = m" "deliver [] bs m = m"
  by (simp_all add: deliver_def)




subsection \<open>The passes of the loop\<close>






lemma get_server_iovec_ok:
  "server_iov server \<and> nr_segs \<le> nr_iov server \<or> kmalloc_ok \<Longrightarrow>
   fst (get_server_iovec kmalloc_ok server nr_segs) \<and>
   last_active (snd (get_server_iovec kmalloc_ok server nr_segs)) = last_active server"
  by (auto simp: get_server_iovec_def)



subsection \<open>Liveness\<close>

lemma time_after_older:
  assumes "unat b < unat a" "unat a < 2 ^ 63"
  shows "time_after a b"
proof -
  have ba: "uint b < uint a"
    using assms(1) by (simp add: word_less_nat_alt [symmetric] word_less_def)
  have a63: "uint a < 2 ^ 63"
    using assms(2) by (simp add: unat_eq_nat_uint del: nat_uint_eq)
  have u: "uint (b - a) = uint b - uint a + 2 ^ 64"
    using ba by (simp add: uint_sub_if')
  have p: "(2::int) ^ 64 = 2 ^ 63 + 2 ^ 63" by simp
  have "(2::int) ^ 63 \<le> uint (b - a)"
    unfolding u p using a63 uint_ge_0 [of b] by linarith
  then have "signed_take_bit 63 (uint (b - a)) \<le> uint (b - a) - 2 ^ Suc 63"
    by (rule signed_take_bit_int_less_eq)
  then have "sint (b - a) \<le> uint b - uint a"
    by (simp add: sint_uint u)
  with ba show ?thesis by (simp add: time_after_def)
qed

lemma deadline_unat:
  assumes "unat la + 120 * HZ < 2 ^ 63"
  shows "unat (la + 2 * SMB_ECHO_INTERVAL HZ) = unat la + 120 * HZ"
proof -
  let ?d = "of_nat (120 * HZ) :: 64 word"
  have e: "la + 2 * SMB_ECHO_INTERVAL HZ = la + ?d"
    by (simp add: SMB_ECHO_INTERVAL_def)
  have h: "120 * HZ < 2 ^ 64" using assms by simp
  have "unat ?d = (120 * HZ) mod 2 ^ LENGTH(64)" by (rule unat_of_nat)
  also have "\<dots> = 120 * HZ" using h by simp
  finally have d: "unat ?d = 120 * HZ" .
  have "unat la + unat ?d < 2 ^ LENGTH(64)" unfolding d using assms by simp
  then have "unat (la + ?d) = unat la + unat ?d" by (rule unat_add_lem [THEN iffD1])
  then show ?thesis unfolding e d .
qed

lemma stale_is_unresponsive:
  assumes "unat (last_active server) + 120 * HZ < unat jiffies" "unat jiffies < 2 ^ 63"
  shows "server_unresponsive True HZ jiffies server"
proof -
  have "unat (last_active server) + 120 * HZ < 2 ^ 63" using assms by simp
  then have "unat (last_active server + 2 * SMB_ECHO_INTERVAL HZ) < unat jiffies"
    using assms(1) by (simp add: deadline_unat)
  then have "time_after jiffies (last_active server + 2 * SMB_ECHO_INTERVAL HZ)"
    using assms(2) by (rule time_after_older)
  then show ?thesis by (simp add: server_unresponsive_def)
qed

subsection \<open>Reading exactly the bytes asked for\<close>



subsection \<open>The idle connection\<close>

text \<open>
  Claim C5, as stated, does not hold. A connection that has been idle for more than 120
  seconds makes the read return \<^verbatim>\<open>-EAGAIN\<close> without a receive, but \<^verbatim>\<open>-EAGAIN\<close> is not
  a value of its own: the read returns it as well when the status has become
  \<^verbatim>\<open>CifsNeedReconnect\<close> and when the peer has closed the stream. Moreover an idle
  connection gets 0 when no byte is asked for, \<^verbatim>\<open>-ENOMEM\<close> when the scratch vector
  cannot be allocated (that test comes first), and is read as usual when the liveness
  check is compiled out.
\<close>

theorem timeout_is_not_a_distinct_error:
  "outcome (cifssrv_readv_from_socket True 100 True idle_server sample_iov 3 10
      [\<lparr>now = 13001, ev = Avail 10, tcp_status = CifsGood\<rparr>] sample_world) =
     Some (- EAGAIN, 0) \<and>
   outcome (cifssrv_readv_from_socket True 100 True idle_server sample_iov 3 10
      [\<lparr>now = 1100, ev = Avail 10, tcp_status = CifsNeedReconnect\<rparr>] sample_world) =
     Some (- EAGAIN, 1) \<and>
   outcome (cifssrv_readv_from_socket True 100 True idle_server sample_iov 3 10
      [\<lparr>now = 1100, ev = Avail 0, tcp_status = CifsGood\<rparr>] sample_world) =
     Some (- EAGAIN, 1) \<and>
   outcome (cifssrv_readv_from_socket True 100 True idle_server sample_iov 3 0
      [\<lparr>now = 13001, ev = Avail 10, tcp_status = CifsGood\<rparr>] sample_world) =
     Some (0, 0) \<and>
   outcome (cifssrv_readv_from_socket True 100 False idle_server sample_iov 3 10
      [\<lparr>now = 13001, ev = Avail 10, tcp_status = CifsGood\<rparr>] sample_world) =
     Some (- ENOMEM, 0) \<and>
   outcome (cifssrv_readv_from_socket False 100 True idle_server sample_iov 3 10
      [\<lparr>now = 13001, ev = Avail 10, tcp_status = CifsGood\<rparr>] sample_world) =
     Some (10, 1)"
  by code_simp


text \<open>
  Claim C5, amended. With the liveness check compiled in and the scratch vector at hand,
  a read of at least one byte on a connection whose last activity lies more than 120
  seconds (\<open>120 * HZ\<close> jiffies) before the clock returns \<^verbatim>\<open>-EAGAIN\<close>, the value it
  also returns for a connection that needs a reconnect; it does so before any receive: the
  stream, memory and the count of receive calls are as they were.
\<close>

theorem stale_read_returns_eagain_before_receiving:
  assumes "server_iov server \<and> nr_segs \<le> nr_iov server \<or> kmalloc_ok"
    and "to_read \<noteq> 0"
    and "unat (last_active server) + 120 * HZ < unat (now t)" and "unat (now t) < 2 ^ 63"
  shows "cifssrv_readv_from_socket True HZ kmalloc_ok server iov_orig nr_segs to_read
           (t # ticks) w =
         Some (- EAGAIN, snd (get_server_iovec kmalloc_ok server nr_segs), w)"
proof (cases "get_server_iovec kmalloc_ok server nr_segs")
  case (Pair ok server1)
  from get_server_iovec_ok [OF assms(1)] Pair
  have ok: "ok" and la: "last_active server1 = last_active server" by simp_all
  have "server_unresponsive True HZ (now t) server1"
    using assms(3,4) la by (intro stale_is_unresponsive) simp_all
  then show ?thesis
    using assms(2) ok by (simp add: cifssrv_readv_from_socket_def Pair)
qed

theorem stale_read_returns_eagain_before_receiving_witness:
  "unat (last_active idle_server) + 120 * 100 < unat (now \<lparr>now = 13001, ev = Avail 10, tcp_status = CifsGood\<rparr>) \<and>
   cifssrv_readv_from_socket True 100 True idle_server sample_iov 3 10
      [\<lparr>now = 13001, ev = Avail 10, tcp_status = CifsGood\<rparr>] sample_world =
     Some (- EAGAIN, idle_server\<lparr>server_iov := True, nr_iov := 3\<rparr>, sample_world)"
proof -
  let ?t = "\<lparr>now = 13001, ev = Avail 10, tcp_status = CifsGood\<rparr>"
  have s: "server_iov idle_server \<and> 3 \<le> nr_iov idle_server \<or> True" by simp
  have n: "(10::nat) \<noteq> 0" by simp
  have a: "unat (last_active idle_server) + 120 * 100 < unat (now ?t)"
    by (simp add: idle_server_def)
  have b: "unat (now ?t) < 2 ^ 63" by simp
  have g: "snd (get_server_iovec True idle_server 3) = idle_server\<lparr>server_iov := True, nr_iov := 3\<rparr>"
    by (simp add: get_server_iovec_def idle_server_def)
  from stale_read_returns_eagain_before_receiving [OF s n a b, of sample_iov "[]" sample_world] a g
  show ?thesis by simp
qed

end
